theory Spec2Isabelle
  imports Complex_Main
begin

section \<open>The data quality checker: data model\<close>

text \<open>
  The engine of \<^verbatim>\<open>data_quality_checker.py\<close> runs over a pandas DataFrame. A frame is
  modelled as the list of its columns, in column order; a column has a name, an element
  kind (its dtype) and its cells. A null cell (None, NaN, NaT) is \<open>None\<close>.

  Numbers are exact rationals: the rounding of binary floating point, signed zeros and
  infinite cell values are outside this model. The not-a-number and the infinities that
  a division by zero produces are values of \<open>fval\<close>, the type of every float the
  engine computes. Two cells are the same value when they are equal in HOL. A frame
  without columns has no rows.
\<close>

datatype dtype = Int64 | Float64 | Object | Datetime64 | Bool

datatype pyval = Num rat | Str string

type_synonym cell = "pyval option"

record column =
  name :: string
  kind :: dtype
  cells :: "cell list"

type_synonym dataframe = "column list"

datatype fval = Fin rat | PInf | NInf | NaN

datatype py_exception =
    ValueError string
  | ZeroDivisionError string
  | AttributeError string
  | LibraryError string

fun exc_str :: "py_exception \<Rightarrow> string" where
  "exc_str (ValueError m) = m"
| "exc_str (ZeroDivisionError m) = m"
| "exc_str (AttributeError m) = m"
| "exc_str (LibraryError m) = m"

subsection \<open>Float arithmetic with the special values\<close>

fun fneg :: "fval \<Rightarrow> fval" where
  "fneg (Fin a) = Fin (- a)"
| "fneg PInf = NInf"
| "fneg NInf = PInf"
| "fneg NaN = NaN"

fun fadd :: "fval \<Rightarrow> fval \<Rightarrow> fval" where
  "fadd (Fin a) (Fin b) = Fin (a + b)"
| "fadd NaN _ = NaN"
| "fadd _ NaN = NaN"
| "fadd PInf NInf = NaN"
| "fadd NInf PInf = NaN"
| "fadd PInf _ = PInf"
| "fadd NInf _ = NInf"
| "fadd _ PInf = PInf"
| "fadd _ NInf = NInf"

definition fsub :: "fval \<Rightarrow> fval \<Rightarrow> fval" where
  "fsub a b = fadd a (fneg b)"

fun fmul :: "fval \<Rightarrow> fval \<Rightarrow> fval" where
  "fmul (Fin a) (Fin b) = Fin (a * b)"
| "fmul NaN _ = NaN"
| "fmul _ NaN = NaN"
| "fmul (Fin a) PInf = (if a = 0 then NaN else if 0 < a then PInf else NInf)"
| "fmul (Fin a) NInf = (if a = 0 then NaN else if 0 < a then NInf else PInf)"
| "fmul PInf (Fin b) = (if b = 0 then NaN else if 0 < b then PInf else NInf)"
| "fmul NInf (Fin b) = (if b = 0 then NaN else if 0 < b then NInf else PInf)"
| "fmul PInf PInf = PInf"
| "fmul NInf NInf = PInf"
| "fmul PInf NInf = NInf"
| "fmul NInf PInf = NInf"

text \<open>Comparison: every comparison with not-a-number is false.\<close>

fun flt :: "fval \<Rightarrow> fval \<Rightarrow> bool" where
  "flt (Fin a) (Fin b) = (a < b)"
| "flt NaN _ = False"
| "flt _ NaN = False"
| "flt NInf NInf = False"
| "flt NInf _ = True"
| "flt _ NInf = False"
| "flt PInf _ = False"
| "flt _ PInf = True"

text \<open>
  \<open>np_div\<close> is the division of numpy and pandas (a zero divisor gives not-a-number or
  an infinity, with a warning at most); \<open>py_truediv\<close> is the \<^verbatim>\<open>/\<close> of two Python
  ints, which raises on a zero divisor.
\<close>

definition np_div :: "rat \<Rightarrow> rat \<Rightarrow> fval" where
  "np_div a b =
     (if b = 0 then (if a = 0 then NaN else if 0 < a then PInf else NInf)
      else Fin (a / b))"

definition py_truediv :: "nat \<Rightarrow> nat \<Rightarrow> py_exception + fval" where
  "py_truediv a b =
     (if b = 0 then Inl (ZeroDivisionError ''division by zero'')
      else Inr (Fin (of_nat a / of_nat b)))"

subsection \<open>The pandas operations the engine calls\<close>

text \<open>\<^verbatim>\<open>len(df)\<close> and the frame's rows.\<close>

definition len_df :: "dataframe \<Rightarrow> nat" where
  "len_df d = (case d of [] \<Rightarrow> 0 | c # _ \<Rightarrow> length (cells c))"

definition row :: "dataframe \<Rightarrow> nat \<Rightarrow> cell list" where
  "row d i = map (\<lambda>c. cells c ! i) d"

definition rows :: "dataframe \<Rightarrow> cell list list" where
  "rows d = map (row d) [0..<len_df d]"

definition is_number :: "dtype \<Rightarrow> bool" where
  "is_number k = (k = Int64 \<or> k = Float64)"

fun is_text_val :: "cell \<Rightarrow> bool" where
  "is_text_val (Some (Str _)) = True"
| "is_text_val _ = False"

text \<open>
  A well-formed frame: column names are distinct, every column has the frame's row
  count, and a numeric column holds numbers and nulls only.
\<close>

definition wf_df :: "dataframe \<Rightarrow> bool" where
  "wf_df d =
     (distinct (map name d)
      \<and> list_all (\<lambda>c. length (cells c) = len_df d) d
      \<and> list_all (\<lambda>c. is_number (kind c) \<longrightarrow> list_all (\<lambda>x. \<not> is_text_val x) (cells c)) d)"

text \<open>\<^verbatim>\<open>Series.to_dict()\<close> and dict construction: a later key overwrites an earlier one.\<close>

definition to_dict :: "('k \<times> 'v) list \<Rightarrow> ('k \<rightharpoonup> 'v)" where
  "to_dict kvs = fold (\<lambda>kv m. m(fst kv \<mapsto> snd kv)) kvs Map.empty"

text \<open>\<^verbatim>\<open>isnull().sum()\<close> of one column, and \<^verbatim>\<open>dropna()\<close>.\<close>

definition isnull :: "cell list \<Rightarrow> bool list" where
  "isnull cs = map (\<lambda>x. x = None) cs"

definition sum_bool :: "bool list \<Rightarrow> nat" where
  "sum_bool bs = length (filter (\<lambda>b. b) bs)"

fun dropna :: "cell list \<Rightarrow> pyval list" where
  "dropna [] = []"
| "dropna (None # cs) = dropna cs"
| "dropna (Some v # cs) = v # dropna cs"

text \<open>\<^verbatim>\<open>unique()\<close>: the distinct values in the order of their first occurrence.\<close>

fun unique_from :: "'a list \<Rightarrow> 'a list \<Rightarrow> 'a list" where
  "unique_from seen [] = []"
| "unique_from seen (x # xs) =
     (if x \<in> set seen then unique_from seen xs else x # unique_from (x # seen) xs)"

definition unique :: "'a list \<Rightarrow> 'a list" where
  "unique xs = unique_from [] xs"

definition nunique :: "cell list \<Rightarrow> nat" where
  "nunique cs = length (unique (dropna cs))"

text \<open>
  \<^verbatim>\<open>DataFrame.duplicated()\<close> with the default \<^verbatim>\<open>keep='first'\<close>: a row is marked
  when an equal row came before it; nulls in the same position count as equal.
\<close>

fun duplicated_from :: "'a list \<Rightarrow> 'a list \<Rightarrow> bool list" where
  "duplicated_from seen [] = []"
| "duplicated_from seen (r # rs) = (r \<in> set seen) # duplicated_from (r # seen) rs"

definition duplicated :: "dataframe \<Rightarrow> bool list" where
  "duplicated d = duplicated_from [] (rows d)"

text \<open>
  \<^verbatim>\<open>Series.quantile(q)\<close> with the default linear interpolation, for \<open>0 \<le> q \<le> 1\<close>:
  nulls are dropped, the values sorted, and the value at the fractional position
  \<open>(n - 1) * q\<close> is interpolated between its two neighbours. There is no value to
  return for a column without non-null values: the result is not-a-number.
\<close>

fun numbers :: "cell list \<Rightarrow> rat list" where
  "numbers [] = []"
| "numbers (Some (Num r) # cs) = r # numbers cs"
| "numbers (_ # cs) = numbers cs"

definition lerp_at :: "rat list \<Rightarrow> rat \<Rightarrow> rat" where
  "lerp_at vs h =
     (let n = length vs;
          lo = min (nat \<lfloor>h\<rfloor>) (n - 1);
          hi = min (lo + 1) (n - 1)
      in vs ! lo + (vs ! hi - vs ! lo) * (h - of_int \<lfloor>h\<rfloor>))"

definition quantile :: "cell list \<Rightarrow> rat \<Rightarrow> fval" where
  "quantile cs q =
     (let vs = sort (numbers cs)
      in if vs = [] then NaN else Fin (lerp_at vs (of_nat (length vs - 1) * q)))"

text \<open>\<^verbatim>\<open>str.endswith\<close>, \<^verbatim>\<open>path.split("/")[-1]\<close>, \<^verbatim>\<open>s.replace(".", "", 1)\<close>, \<^verbatim>\<open>str.isdigit\<close>
  (on ASCII digits) and the slice \<^verbatim>\<open>xs[:k]\<close>.\<close>

definition endswith :: "string \<Rightarrow> string \<Rightarrow> bool" where
  "endswith s suf = (length suf \<le> length s \<and> drop (length s - length suf) s = suf)"

definition last_segment :: "string \<Rightarrow> string" where
  "last_segment p = rev (takeWhile (\<lambda>c. c \<noteq> CHR ''/'') (rev p))"

definition replace_first_dot :: "string \<Rightarrow> string" where
  "replace_first_dot s = remove1 (CHR ''.'') s"

definition is_digit_char :: "char \<Rightarrow> bool" where
  "is_digit_char c = (c \<in> set ''0123456789'')"

definition isdigit :: "string \<Rightarrow> bool" where
  "isdigit s = (s \<noteq> [] \<and> list_all is_digit_char s)"

definition slice_to :: "int \<Rightarrow> 'a list \<Rightarrow> 'a list" where
  "slice_to k xs = (if 0 \<le> k then take (nat k) xs else take (length xs - nat (- k)) xs)"


section \<open>The quality report and the engine's state\<close>

record basic_info =
  info_file_name :: string
  total_rows :: nat
  total_columns :: nat
  load_timestamp :: string

record missing_values =
  total_missing :: nat
  missing_by_column :: "string \<rightharpoonup> nat"
  missing_percentage_by_column :: "string \<rightharpoonup> fval"
  columns_with_missing :: "string list"

record data_types =
  column_types :: "string \<rightharpoonup> string"
  numeric_columns :: "string list"
  categorical_columns :: "string list"
  datetime_columns :: "string list"

record duplicates =
  total_duplicate_rows :: nat
  duplicate_percentage :: fval

record outlier =
  outlier_count :: nat
  outlier_percentage :: fval
  lower_bound :: fval
  upper_bound :: fval

record cardinality =
  unique_values :: nat
  cardinality_percentage :: fval
  high_cardinality :: bool

record summary_statistics =
  describe :: "string \<rightharpoonup> (string \<rightharpoonup> fval)"
  skewness :: "string \<rightharpoonup> fval"
  kurtosis :: "string \<rightharpoonup> fval"

record sample =
  detected_type :: string
  sample_values :: "string list"
  sample_notes :: string

text \<open>The report is a dict from the check's name to the check's result.\<close>

datatype report_section =
    BasicInfo basic_info
  | MissingValues missing_values
  | DataTypes data_types
  | Duplicates duplicates
  | Outliers "string \<rightharpoonup> outlier"
  | Cardinality "string \<rightharpoonup> cardinality"
  | SummaryStatistics summary_statistics
  | SampleInspection "string \<rightharpoonup> sample"

type_synonym quality_report = "string \<rightharpoonup> report_section"

datatype level = INFO | ERROR

record checker =
  file_path :: "string option"
  df :: "dataframe option"
  file_name :: string
  quality_report :: quality_report
  log_records :: "(level \<times> string) list"

text \<open>
  What the engine takes from pandas and from the clock: the three file readers (each
  returns a frame or raises), the formatted time of \<^verbatim>\<open>datetime.now()\<close>, the display
  string of a number (\<^verbatim>\<open>astype(str)\<close>), and \<^verbatim>\<open>describe\<close>, \<^verbatim>\<open>skew\<close> and
  \<^verbatim>\<open>kurtosis\<close> of the numeric columns. The engine's results are stated for every
  such runtime.
\<close>

record runtime =
  read_csv :: "string \<Rightarrow> py_exception + dataframe"
  read_excel :: "string \<Rightarrow> py_exception + dataframe"
  read_parquet :: "string \<Rightarrow> py_exception + dataframe"
  now_str :: string
  num_str :: "dtype \<Rightarrow> rat \<Rightarrow> string"
  lib_describe :: "column list \<Rightarrow> py_exception + (string \<rightharpoonup> (string \<rightharpoonup> fval))"
  lib_skew :: "column list \<Rightarrow> py_exception + (string \<rightharpoonup> fval)"
  lib_kurtosis :: "column list \<Rightarrow> py_exception + (string \<rightharpoonup> fval)"

fun dtype_str :: "dtype \<Rightarrow> string" where
  "dtype_str Int64 = ''int64''"
| "dtype_str Float64 = ''float64''"
| "dtype_str Object = ''object''"
| "dtype_str Datetime64 = ''datetime64[ns]''"
| "dtype_str Bool = ''bool''"

fun astype_str :: "runtime \<Rightarrow> dtype \<Rightarrow> pyval \<Rightarrow> string" where
  "astype_str rt k (Str s) = s"
| "astype_str rt k (Num r) = num_str rt k r"

definition log_info :: "string \<Rightarrow> checker \<Rightarrow> checker" where
  "log_info m ck = ck\<lparr>log_records := log_records ck @ [(INFO, m)]\<rparr>"

definition log_error :: "string \<Rightarrow> checker \<Rightarrow> checker" where
  "log_error m ck = ck\<lparr>log_records := log_records ck @ [(ERROR, m)]\<rparr>"

definition set_section :: "string \<Rightarrow> report_section \<Rightarrow> checker \<Rightarrow> checker" where
  "set_section k s ck = ck\<lparr>quality_report := (quality_report ck)(k \<mapsto> s)\<rparr>"

text \<open>The truth value of an optional string: None and the empty string are false.\<close>

fun truthy :: "string option \<Rightarrow> bool" where
  "truthy None = False"
| "truthy (Some s) = (s \<noteq> [])"

text \<open>\<^verbatim>\<open>__init__\<close>: the log of the process is kept in the state, starting here.\<close>

definition init :: "string option \<Rightarrow> dataframe option \<Rightarrow> string option \<Rightarrow> checker" where
  "init fp d fn =
     (let nm = (case fn of
                  Some n \<Rightarrow> if n \<noteq> [] then n
                            else (case fp of Some p \<Rightarrow> if p \<noteq> [] then last_segment p else ''DataFrame''
                                           | None \<Rightarrow> ''DataFrame'')
                | None \<Rightarrow> (case fp of Some p \<Rightarrow> if p \<noteq> [] then last_segment p else ''DataFrame''
                                     | None \<Rightarrow> ''DataFrame''))
      in \<lparr>file_path = fp, df = d, file_name = nm, quality_report = Map.empty,
          log_records = [(INFO, ''Initialized DataQualityChecker for: '' @ nm)]\<rparr>)"

section \<open>Loading\<close>

text \<open>
  The body of the \<^verbatim>\<open>try\<close> in \<^verbatim>\<open>load_data\<close>: the reader is chosen by the path's
  suffix; any other suffix raises a ValueError. The handler catches whatever was raised,
  logs it and makes \<^verbatim>\<open>load_data\<close> return False. (The handler's \<^verbatim>\<open>print\<close> of the same
  message to standard output is not part of the state.)
\<close>

definition read_file :: "runtime \<Rightarrow> string \<Rightarrow> py_exception + dataframe" where
  "read_file rt p =
     (if endswith p ''.csv'' then read_csv rt p
      else if endswith p ''.xlsx'' then read_excel rt p
      else if endswith p ''.parquet'' then read_parquet rt p
      else Inl (ValueError ''Unsupported file format. Use CSV, XLSX, or PARQUET.''))"

definition load_data :: "runtime \<Rightarrow> checker \<Rightarrow> bool \<times> checker" where
  "load_data rt ck =
     (case df ck of
        Some d \<Rightarrow>
          (True, log_info ''Using provided DataFrame.''
             (set_section ''basic_info''
                (BasicInfo \<lparr>info_file_name = file_name ck, total_rows = len_df d,
                            total_columns = length d, load_timestamp = now_str rt\<rparr>) ck))
      | None \<Rightarrow>
          if \<not> truthy (file_path ck)
          then (False, log_error ''No file path or DataFrame provided.'' ck)
          else (case file_path ck of
                  None \<Rightarrow> (False, log_error ''No file path or DataFrame provided.'' ck)
                | Some p \<Rightarrow>
                    (case read_file rt p of
                       Inl e \<Rightarrow> (False, log_error (''Error loading file: '' @ exc_str e) ck)
                     | Inr d \<Rightarrow>
                         (True, log_info ''Data loaded successfully from file.''
                            (set_section ''basic_info''
                               (BasicInfo \<lparr>info_file_name = last_segment p, total_rows = len_df d,
                                           total_columns = length d, load_timestamp = now_str rt\<rparr>)
                               (ck\<lparr>df := Some d\<rparr>))))))"

section \<open>The checks\<close>

text \<open>
  Every check reads \<^verbatim>\<open>self.df\<close>; called on an engine that holds no frame, the
  attribute access on None raises. A check that raises has not yet written its section.
  The loops over a selection of columns read \<^verbatim>\<open>self.df[col]\<close> by name, which is the
  column itself when the names are distinct.
\<close>

definition need_df :: "string \<Rightarrow> checker \<Rightarrow> py_exception + dataframe" where
  "need_df attr ck =
     (case df ck of
        None \<Rightarrow> Inl (AttributeError ([CHR 0x27] @ ''NoneType'' @ [CHR 0x27] @ '' object has no attribute ''
                                  @ [CHR 0x27] @ attr @ [CHR 0x27]))
      | Some d \<Rightarrow> Inr d)"

subsection \<open>Missing values\<close>

definition missing_data :: "dataframe \<Rightarrow> (string \<times> nat) list" where
  "missing_data d = map (\<lambda>c. (name c, sum_bool (isnull (cells c)))) d"

definition missing_percentage :: "dataframe \<Rightarrow> (string \<times> fval) list" where
  "missing_percentage d =
     map (\<lambda>kv. (fst kv, fmul (np_div (of_nat (snd kv)) (of_nat (len_df d))) (Fin 100)))
         (missing_data d)"

definition missing_values_of :: "dataframe \<Rightarrow> missing_values" where
  "missing_values_of d =
     \<lparr>total_missing = sum_list (map snd (missing_data d)),
      missing_by_column = to_dict (missing_data d),
      missing_percentage_by_column = to_dict (missing_percentage d),
      columns_with_missing = map fst (filter (\<lambda>kv. 0 < snd kv) (missing_data d))\<rparr>"

definition check_missing_values :: "checker \<Rightarrow> py_exception + checker" where
  "check_missing_values ck =
     (case need_df ''isnull'' ck of
        Inl e \<Rightarrow> Inl e
      | Inr d \<Rightarrow>
          Inr (log_info ''Checked missing values.''
                 (set_section ''missing_values'' (MissingValues (missing_values_of d)) ck)))"

subsection \<open>Data types\<close>

definition data_types_of :: "dataframe \<Rightarrow> data_types" where
  "data_types_of d =
     \<lparr>column_types = to_dict (map (\<lambda>c. (name c, dtype_str (kind c))) d),
      numeric_columns = map name (filter (\<lambda>c. is_number (kind c)) d),
      categorical_columns = map name (filter (\<lambda>c. kind c = Object) d),
      datetime_columns = map name (filter (\<lambda>c. kind c = Datetime64) d)\<rparr>"

definition check_data_types :: "checker \<Rightarrow> py_exception + checker" where
  "check_data_types ck =
     (case need_df ''dtypes'' ck of
        Inl e \<Rightarrow> Inl e
      | Inr d \<Rightarrow>
          Inr (log_info ''Checked data types.''
                 (set_section ''data_types'' (DataTypes (data_types_of d)) ck)))"

subsection \<open>Duplicates\<close>

definition duplicates_of :: "dataframe \<Rightarrow> duplicates" where
  "duplicates_of d =
     (let duplicate_rows = sum_bool (duplicated d)
      in \<lparr>total_duplicate_rows = duplicate_rows,
          duplicate_percentage =
            fmul (np_div (of_nat duplicate_rows) (of_nat (len_df d))) (Fin 100)\<rparr>)"

definition check_duplicates :: "checker \<Rightarrow> py_exception + checker" where
  "check_duplicates ck =
     (case need_df ''duplicated'' ck of
        Inl e \<Rightarrow> Inl e
      | Inr d \<Rightarrow>
          Inr (log_info ''Checked duplicates.''
                 (set_section ''duplicates'' (Duplicates (duplicates_of d)) ck)))"

subsection \<open>Outliers\<close>

text \<open>
  A cell as an operand of a comparison with a float: a null compares false with
  everything, as not-a-number does.
\<close>

fun cell_num :: "cell \<Rightarrow> fval" where
  "cell_num (Some (Num r)) = Fin r"
| "cell_num _ = NaN"

definition outlier_of :: "nat \<Rightarrow> cell list \<Rightarrow> outlier" where
  "outlier_of n cs =
     (let Q1 = quantile cs (1 / 4);
          Q3 = quantile cs (3 / 4);
          IQR = fsub Q3 Q1;
          lower = fsub Q1 (fmul (Fin (3 / 2)) IQR);
          upper = fadd Q3 (fmul (Fin (3 / 2)) IQR);
          cnt = sum_bool (map (\<lambda>x. flt (cell_num x) lower \<or> flt upper (cell_num x)) cs)
      in \<lparr>outlier_count = cnt,
          outlier_percentage = fmul (np_div (of_nat cnt) (of_nat n)) (Fin 100),
          lower_bound = lower,
          upper_bound = upper\<rparr>)"

fun outliers_loop :: "nat \<Rightarrow> column list \<Rightarrow> (string \<rightharpoonup> outlier) \<Rightarrow> (string \<rightharpoonup> outlier)" where
  "outliers_loop n [] acc = acc"
| "outliers_loop n (c # cs) acc =
     (if dropna (cells c) = [] then outliers_loop n cs acc
      else outliers_loop n cs (acc(name c \<mapsto> outlier_of n (cells c))))"

definition outliers_of :: "dataframe \<Rightarrow> (string \<rightharpoonup> outlier)" where
  "outliers_of d = outliers_loop (len_df d) (filter (\<lambda>c. is_number (kind c)) d) Map.empty"

definition check_numeric_outliers :: "checker \<Rightarrow> py_exception + checker" where
  "check_numeric_outliers ck =
     (case need_df ''select_dtypes'' ck of
        Inl e \<Rightarrow> Inl e
      | Inr d \<Rightarrow>
          Inr (log_info ''Checked numeric outliers.''
                 (set_section ''outliers'' (Outliers (outliers_of d)) ck)))"

subsection \<open>Column samples\<close>

text \<open>The advisory note: the warning sign (U+26A0, U+FE0F) in UTF-8, then the text.\<close>

definition numeric_note :: string where
  "numeric_note =
     [CHR 0xE2, CHR 0x9A, CHR 0xA0, CHR 0xEF, CHR 0xB8, CHR 0x8F]
     @ '' POSSIBLE NUMERIC STORED AS STRING''"

definition numeric_like :: "string \<Rightarrow> bool" where
  "numeric_like s = isdigit (replace_first_dot s)"

definition sample_of :: "runtime \<Rightarrow> int \<Rightarrow> column \<Rightarrow> sample" where
  "sample_of rt sample_size c =
     (let dtype = dtype_str (kind c);
          found = slice_to sample_size (unique (map (astype_str rt (kind c)) (dropna (cells c))));
          samples = (if length found = 0 then [''<no non-null values>''] else found);
          flag = (if dtype = ''object''
                  then (let k = sum_bool (map numeric_like samples)
                        in if 0 < length samples
                              \<and> (6 / 10 :: rat) < of_nat k / of_nat (length samples)
                           then numeric_note else [])
                  else [])
      in \<lparr>detected_type = dtype, sample_values = samples, sample_notes = flag\<rparr>)"

definition samples_of :: "runtime \<Rightarrow> int \<Rightarrow> dataframe \<Rightarrow> (string \<rightharpoonup> sample)" where
  "samples_of rt sample_size d = to_dict (map (\<lambda>c. (name c, sample_of rt sample_size c)) d)"

definition inspect_column_samples :: "runtime \<Rightarrow> int \<Rightarrow> checker \<Rightarrow> py_exception + checker" where
  "inspect_column_samples rt sample_size ck =
     (case need_df ''columns'' ck of
        Inl e \<Rightarrow> Inl e
      | Inr d \<Rightarrow>
          Inr (log_info ''Inspected column samples.''
                 (set_section ''sample_inspection''
                    (SampleInspection (samples_of rt sample_size d)) ck)))"

subsection \<open>Cardinality\<close>

text \<open>
  \<^verbatim>\<open>nunique\<close> and \<^verbatim>\<open>len\<close> return Python ints, so the percentage is a Python division:
  it raises when the frame has no rows, before the column's record is stored.
\<close>

fun cardinality_loop ::
  "nat \<Rightarrow> column list \<Rightarrow> (string \<rightharpoonup> cardinality) \<Rightarrow> py_exception + (string \<rightharpoonup> cardinality)" where
  "cardinality_loop n [] acc = Inr acc"
| "cardinality_loop n (c # cs) acc =
     (let unique_count = nunique (cells c)
      in case py_truediv unique_count n of
           Inl e \<Rightarrow> Inl e
         | Inr p \<Rightarrow>
             cardinality_loop n cs
               (acc(name c \<mapsto>
                  \<lparr>unique_values = unique_count,
                   cardinality_percentage = fmul p (Fin 100),
                   high_cardinality = ((of_nat n :: rat) * (1 / 2) < of_nat unique_count)\<rparr>)))"

definition cardinality_of :: "dataframe \<Rightarrow> py_exception + (string \<rightharpoonup> cardinality)" where
  "cardinality_of d = cardinality_loop (len_df d) (filter (\<lambda>c. kind c = Object) d) Map.empty"

definition check_cardinality :: "checker \<Rightarrow> py_exception + checker" where
  "check_cardinality ck =
     (case need_df ''select_dtypes'' ck of
        Inl e \<Rightarrow> Inl e
      | Inr d \<Rightarrow>
          (case cardinality_of d of
             Inl e \<Rightarrow> Inl e
           | Inr m \<Rightarrow>
               Inr (log_info ''Checked cardinality.''
                      (set_section ''cardinality'' (Cardinality m) ck))))"

subsection \<open>Summary statistics\<close>

definition generate_summary_statistics :: "runtime \<Rightarrow> checker \<Rightarrow> py_exception + checker" where
  "generate_summary_statistics rt ck =
     (case need_df ''select_dtypes'' ck of
        Inl e \<Rightarrow> Inl e
      | Inr d \<Rightarrow>
          (let numeric_cols = filter (\<lambda>c. is_number (kind c)) d
           in case lib_describe rt numeric_cols of
                Inl e \<Rightarrow> Inl e
              | Inr ds \<Rightarrow>
                  (case lib_skew rt numeric_cols of
                     Inl e \<Rightarrow> Inl e
                   | Inr sk \<Rightarrow>
                       (case lib_kurtosis rt numeric_cols of
                          Inl e \<Rightarrow> Inl e
                        | Inr ku \<Rightarrow>
                            Inr (log_info ''Generated summary statistics.''
                                   (set_section ''summary_statistics''
                                      (SummaryStatistics
                                         \<lparr>describe = ds, skewness = sk, kurtosis = ku\<rparr>) ck))))))"

section \<open>Running all checks\<close>

text \<open>
  \<^verbatim>\<open>run_all_checks\<close> returns None when loading fails; otherwise it runs the seven
  checks in order and returns the report. An exception of a check is not caught: the
  call raises (\<open>Inl\<close>). A normal return carries the returned value and the engine's
  state after the call.
\<close>

definition then_check ::
  "py_exception + checker \<Rightarrow> (checker \<Rightarrow> py_exception + checker) \<Rightarrow> py_exception + checker" where
  "then_check r f = (case r of Inl e \<Rightarrow> Inl e | Inr ck \<Rightarrow> f ck)"

definition run_checks :: "runtime \<Rightarrow> checker \<Rightarrow> py_exception + checker" where
  "run_checks rt ck =
     then_check (then_check (then_check (then_check (then_check (then_check
       (check_missing_values ck)
        check_data_types)
        check_duplicates)
        check_numeric_outliers)
        check_cardinality)
        (generate_summary_statistics rt))
        (inspect_column_samples rt 3)"

definition run_all_checks ::
  "runtime \<Rightarrow> checker \<Rightarrow> py_exception + (quality_report option \<times> checker)" where
  "run_all_checks rt ck =
     (case load_data rt ck of
        (False, ck1) \<Rightarrow> Inr (None, ck1)
      | (True, ck1) \<Rightarrow>
          (case run_checks rt ck1 of
             Inl e \<Rightarrow> Inl e
           | Inr ck2 \<Rightarrow>
               (let ck3 = log_info ''All checks completed.'' ck2
                in Inr (Some (quality_report ck3), ck3))))"

section \<open>Notions of the specification and example inputs\<close>

text \<open>The three suffixes \<^verbatim>\<open>load_data\<close> knows, and the eight keys of a full report.\<close>

definition recognized :: "string \<Rightarrow> bool" where
  "recognized p = (endswith p ''.csv'' \<or> endswith p ''.xlsx'' \<or> endswith p ''.parquet'')"

definition report_keys :: "string set" where
  "report_keys = {''basic_info'', ''missing_values'', ''data_types'', ''duplicates'',
                  ''outliers'', ''cardinality'', ''summary_statistics'', ''sample_inspection''}"

text \<open>
  A runtime for the examples: every reader fails, and \<^verbatim>\<open>describe\<close> refuses a frame
  without columns, as pandas does.
\<close>

definition plain_runtime :: runtime where
  "plain_runtime =
     \<lparr>read_csv = (\<lambda>p. Inl (LibraryError ''Error tokenizing data'')),
      read_excel = (\<lambda>p. Inl (LibraryError ''File is not a zip file'')),
      read_parquet = (\<lambda>p. Inl (LibraryError ''Parquet magic bytes not found'')),
      now_str = ''2024-01-01 00:00:00'',
      num_str = (\<lambda>k r. ''0''),
      lib_describe = (\<lambda>cs. if cs = []
                             then Inl (ValueError ''Cannot describe a DataFrame without columns'')
                             else Inr Map.empty),
      lib_skew = (\<lambda>cs. Inr Map.empty),
      lib_kurtosis = (\<lambda>cs. Inr Map.empty)\<rparr>"

definition scenario_a :: dataframe where
  "scenario_a =
     [\<lparr>name = ''age'', kind = Float64,
       cells = [Some (Num 25), Some (Num 30), None, Some (Num 25)]\<rparr>,
      \<lparr>name = ''city'', kind = Object,
       cells = [Some (Str ''Oslo''), None, None, Some (Str ''Oslo'')]\<rparr>]"

definition scenario_b_values :: "cell list" where
  "scenario_b_values =
     [Some (Num 1), Some (Num 2), Some (Num 3), Some (Num 4), Some (Num 5), Some (Num 100)]"

definition scenario_b :: dataframe where
  "scenario_b = [\<lparr>name = ''x'', kind = Int64, cells = scenario_b_values\<rparr>]"

text \<open>The same column beside a numeric column without any value.\<close>

definition all_null_frame :: dataframe where
  "all_null_frame =
     [\<lparr>name = ''x'', kind = Int64, cells = scenario_b_values\<rparr>,
      \<lparr>name = ''y'', kind = Float64, cells = [None, None, None, None, None, None]\<rparr>]"

text \<open>The two positions between which \<open>lerp_at\<close> interpolates.\<close>

definition lerp_lo :: "rat list \<Rightarrow> rat \<Rightarrow> nat" where
  "lerp_lo vs h = min (nat \<lfloor>h\<rfloor>) (length vs - 1)"

definition lerp_hi :: "rat list \<Rightarrow> rat \<Rightarrow> nat" where
  "lerp_hi vs h = min (lerp_lo vs h + 1) (length vs - 1)"

text \<open>
  The specification's words for the sample inspection: the distinct values in the order
  first encountered, and a numeric literal: digits and at most one decimal point, with
  at least one digit.
\<close>

definition first_occurrences :: "'a list \<Rightarrow> 'a list" where
  "first_occurrences xs = rev (remdups (rev xs))"

definition numeric_literal :: "string \<Rightarrow> bool" where
  "numeric_literal s =
     (list_all (\<lambda>c. is_digit_char c \<or> c = CHR ''.'') s
      \<and> count_list s (CHR ''.'') \<le> 1
      \<and> list_ex is_digit_char s)"

text \<open>Scenario C of the specification, beside a text column without any value.\<close>

definition scenario_c :: dataframe where
  "scenario_c =
     [\<lparr>name = ''code'', kind = Object,
       cells = [Some (Str ''1''), None, Some (Str ''2''), Some (Str ''1''), Some (Str ''x'')]\<rparr>,
      \<lparr>name = ''blank'', kind = Object, cells = [None, None, None, None, None]\<rparr>,
      \<lparr>name = ''word'', kind = Object,
       cells = [Some (Str ''1''), Some (Str ''x''), Some (Str ''y''), Some (Str ''z''), None]\<rparr>]"

text \<open>A frame without rows: what the CSV reader returns for a file that has only a header.\<close>

definition header_only :: dataframe where
  "header_only =
     [\<lparr>name = ''id'', kind = Object, cells = []\<rparr>,
      \<lparr>name = ''amount'', kind = Object, cells = []\<rparr>]"

section \<open>Properties of the engine\<close>

subsection \<open>State and dict lemmas\<close>

lemma checker_updates [simp]:
  "quality_report (log_info m ck) = quality_report ck"
  "quality_report (log_error m ck) = quality_report ck"
  "df (log_info m ck) = df ck"
  "df (log_error m ck) = df ck"
  "df (set_section k s ck) = df ck"
  "quality_report (set_section k s ck) = (quality_report ck)(k \<mapsto> s)"
  by (simp_all add: log_info_def log_error_def set_section_def)

lemma init_fields [simp]:
  "df (init fp d fn) = d"
  "file_path (init fp d fn) = fp"
  "quality_report (init fp d fn) = Map.empty"
  by (simp_all add: init_def Let_def)

lemma fold_upd_map_of:
  "fold (\<lambda>kv m. m(fst kv \<mapsto> snd kv)) kvs m = m ++ map_of (rev kvs)"
  by (induction kvs arbitrary: m) simp_all

lemma to_dict_map_of_rev: "to_dict kvs = map_of (rev kvs)"
  by (simp add: to_dict_def fold_upd_map_of)

lemma to_dict_distinct:
  assumes "distinct (map fst kvs)" and "(k, v) \<in> set kvs"
  shows "to_dict kvs k = Some v"
proof -
  from assms have "distinct (map fst (rev kvs))" and "(k, v) \<in> set (rev kvs)"
    by (simp_all add: rev_map [symmetric])
  then show ?thesis
    by (simp add: to_dict_map_of_rev)
qed

lemma scenario_a_wf: "wf_df scenario_a"
  by (simp add: wf_df_def scenario_a_def len_df_def is_number_def)

lemma scenario_a_len: "len_df scenario_a = 4"
  by (simp add: scenario_a_def len_df_def)

subsection \<open>Loading\<close>

text \<open>
  Claim C10. An engine constructed with neither a file path nor a frame: \<^verbatim>\<open>load_data\<close>
  logs the error and returns False, and \<^verbatim>\<open>run_all_checks\<close> returns None without
  raising and without touching the report.
\<close>

theorem run_all_checks_no_input:
  assumes "df ck = None" and "file_path ck = None"
  shows "load_data rt ck = (False, log_error ''No file path or DataFrame provided.'' ck)
         \<and> run_all_checks rt ck = Inr (None, log_error ''No file path or DataFrame provided.'' ck)
         \<and> quality_report (log_error ''No file path or DataFrame provided.'' ck) = quality_report ck"
  using assms by (simp add: load_data_def run_all_checks_def)

theorem run_all_checks_no_input_witness:
  "run_all_checks plain_runtime (init None None None)
     = Inr (None, log_error ''No file path or DataFrame provided.'' (init None None None))"
  using run_all_checks_no_input [of "init None None None" plain_runtime]
  by simp

text \<open>
  Claim C4. An engine that has a file path and no frame. A non-empty path without a
  recognized suffix raises the ValueError of the unsupported format inside
  \<^verbatim>\<open>load_data\<close>; a reader that fails raises its own exception. Whatever is raised
  there is caught and logged: \<^verbatim>\<open>load_data\<close> returns False and \<^verbatim>\<open>run_all_checks\<close>
  returns None; it does not raise, the report is as it was and no frame is held.
\<close>

theorem load_failure_recovered:
  assumes "df ck = None" and "file_path ck = Some p"
  shows "(\<not> recognized p \<and> p \<noteq> [] \<longrightarrow>
            read_file rt p = Inl (ValueError ''Unsupported file format. Use CSV, XLSX, or PARQUET.''))
         \<and> (\<forall>e. p \<noteq> [] \<and> read_file rt p = Inl e \<longrightarrow>
               load_data rt ck = (False, log_error (''Error loading file: '' @ exc_str e) ck)
               \<and> run_all_checks rt ck
                   = Inr (None, log_error (''Error loading file: '' @ exc_str e) ck))
         \<and> (\<not> recognized p \<or> (\<exists>e. read_file rt p = Inl e) \<longrightarrow>
               (\<exists>m. run_all_checks rt ck = Inr (None, log_error m ck)
                    \<and> quality_report (log_error m ck) = quality_report ck
                    \<and> df (log_error m ck) = None))"
  using assms
  by (auto simp add: load_data_def run_all_checks_def recognized_def read_file_def)

theorem load_failure_recovered_witness:
  "run_all_checks plain_runtime (init (Some ''notes.txt'') None None)
     = Inr (None, log_error ''Error loading file: Unsupported file format. Use CSV, XLSX, or PARQUET.''
                    (init (Some ''notes.txt'') None None))
   \<and> run_all_checks plain_runtime (init (Some ''bad.csv'') None None)
     = Inr (None, log_error ''Error loading file: Error tokenizing data''
                    (init (Some ''bad.csv'') None None))"
proof -
  have a: "df (init (Some ''notes.txt'') None None) = None"
    and b: "file_path (init (Some ''notes.txt'') None None) = Some ''notes.txt''"
    and c: "df (init (Some ''bad.csv'') None None) = None"
    and d: "file_path (init (Some ''bad.csv'') None None) = Some ''bad.csv''"
    by simp_all
  have e: "\<not> recognized ''notes.txt''"
    by (simp add: recognized_def endswith_def)
  have f: "read_file plain_runtime ''bad.csv'' = Inl (LibraryError ''Error tokenizing data'')"
    by (simp add: read_file_def endswith_def plain_runtime_def)
  show ?thesis
    using load_failure_recovered [OF a b, of plain_runtime]
          load_failure_recovered [OF c d, of plain_runtime] e f
    by simp
qed

subsection \<open>The report is complete\<close>

lemma load_data_keys:
  "load_data rt ck = (True, ck1) \<Longrightarrow>
     dom (quality_report ck1) = insert ''basic_info'' (dom (quality_report ck))"
  by (auto simp add: load_data_def split: option.splits if_splits sum.splits)

lemma check_missing_values_keys:
  "check_missing_values ck = Inr ck' \<Longrightarrow>
     dom (quality_report ck') = insert ''missing_values'' (dom (quality_report ck))"
  by (auto simp add: check_missing_values_def split: sum.splits)

lemma check_data_types_keys:
  "check_data_types ck = Inr ck' \<Longrightarrow>
     dom (quality_report ck') = insert ''data_types'' (dom (quality_report ck))"
  by (auto simp add: check_data_types_def split: sum.splits)

lemma check_duplicates_keys:
  "check_duplicates ck = Inr ck' \<Longrightarrow>
     dom (quality_report ck') = insert ''duplicates'' (dom (quality_report ck))"
  by (auto simp add: check_duplicates_def split: sum.splits)

lemma check_numeric_outliers_keys:
  "check_numeric_outliers ck = Inr ck' \<Longrightarrow>
     dom (quality_report ck') = insert ''outliers'' (dom (quality_report ck))"
  by (auto simp add: check_numeric_outliers_def split: sum.splits)

lemma check_cardinality_keys:
  "check_cardinality ck = Inr ck' \<Longrightarrow>
     dom (quality_report ck') = insert ''cardinality'' (dom (quality_report ck))"
  by (auto simp add: check_cardinality_def split: sum.splits)

lemma generate_summary_statistics_keys:
  "generate_summary_statistics rt ck = Inr ck' \<Longrightarrow>
     dom (quality_report ck') = insert ''summary_statistics'' (dom (quality_report ck))"
  by (auto simp add: generate_summary_statistics_def Let_def split: sum.splits)

lemma inspect_column_samples_keys:
  "inspect_column_samples rt k ck = Inr ck' \<Longrightarrow>
     dom (quality_report ck') = insert ''sample_inspection'' (dom (quality_report ck))"
  by (auto simp add: inspect_column_samples_def split: sum.splits)

lemma then_check_Inr:
  "then_check r f = Inr ck' \<Longrightarrow> \<exists>ck. r = Inr ck \<and> f ck = Inr ck'"
  by (cases r) (simp_all add: then_check_def)

lemma run_checks_keys:
  assumes "run_checks rt ck = Inr ck'"
  shows "dom (quality_report ck') =
           {''missing_values'', ''data_types'', ''duplicates'', ''outliers'', ''cardinality'',
            ''summary_statistics'', ''sample_inspection''} \<union> dom (quality_report ck)"
proof -
  from assms obtain c6 where s7: "inspect_column_samples rt 3 c6 = Inr ck'"
    and r6: "then_check (then_check (then_check (then_check (then_check
       (check_missing_values ck) check_data_types) check_duplicates)
        check_numeric_outliers) check_cardinality) (generate_summary_statistics rt) = Inr c6"
    unfolding run_checks_def by (blast dest: then_check_Inr)
  from r6 obtain c5 where s6: "generate_summary_statistics rt c5 = Inr c6"
    and r5: "then_check (then_check (then_check (then_check
       (check_missing_values ck) check_data_types) check_duplicates)
        check_numeric_outliers) check_cardinality = Inr c5"
    by (blast dest: then_check_Inr)
  from r5 obtain c4 where s5: "check_cardinality c4 = Inr c5"
    and r4: "then_check (then_check (then_check
       (check_missing_values ck) check_data_types) check_duplicates)
        check_numeric_outliers = Inr c4"
    by (blast dest: then_check_Inr)
  from r4 obtain c3 where s4: "check_numeric_outliers c3 = Inr c4"
    and r3: "then_check (then_check
       (check_missing_values ck) check_data_types) check_duplicates = Inr c3"
    by (blast dest: then_check_Inr)
  from r3 obtain c2 where s3: "check_duplicates c2 = Inr c3"
    and r2: "then_check (check_missing_values ck) check_data_types = Inr c2"
    by (blast dest: then_check_Inr)
  from r2 obtain c1 where s2: "check_data_types c1 = Inr c2"
    and s1: "check_missing_values ck = Inr c1"
    by (blast dest: then_check_Inr)
  show ?thesis
    using check_missing_values_keys [OF s1] check_data_types_keys [OF s2]
      check_duplicates_keys [OF s3] check_numeric_outliers_keys [OF s4]
      check_cardinality_keys [OF s5] generate_summary_statistics_keys [OF s6]
      inspect_column_samples_keys [OF s7]
    by auto
qed

text \<open>
  Claim C3. When \<^verbatim>\<open>run_all_checks\<close> returns a report, the report holds all eight keys
  (and whatever keys the engine's report held before the call, none for a new engine);
  it is the report the engine keeps.
\<close>

theorem run_all_checks_report_complete:
  assumes "run_all_checks rt ck = Inr (Some rep, ck')"
  shows "dom rep = report_keys \<union> dom (quality_report ck) \<and> quality_report ck' = rep"
proof -
  from assms obtain ck1 ck2 where l: "load_data rt ck = (True, ck1)"
    and r: "run_checks rt ck1 = Inr ck2"
    and e: "ck' = log_info ''All checks completed.'' ck2" and q: "rep = quality_report ck'"
    by (auto simp add: run_all_checks_def Let_def split: prod.splits bool.splits sum.splits)
  show ?thesis
    using load_data_keys [OF l] run_checks_keys [OF r] e q
    by (auto simp add: report_keys_def)
qed

lemma scenario_b_runs:
  "\<exists>rep ck'. run_all_checks plain_runtime (init None (Some scenario_b) None) = Inr (Some rep, ck')"
  by (simp add: run_all_checks_def load_data_def run_checks_def then_check_def
      check_missing_values_def check_data_types_def check_duplicates_def
      check_numeric_outliers_def check_cardinality_def generate_summary_statistics_def
      inspect_column_samples_def need_df_def cardinality_of_def Let_def
      plain_runtime_def scenario_b_def is_number_def)

theorem run_all_checks_report_complete_witness:
  "\<exists>rep ck'. run_all_checks plain_runtime (init None (Some scenario_b) None) = Inr (Some rep, ck')
      \<and> dom rep = report_keys"
proof -
  obtain rep ck' where
    r: "run_all_checks plain_runtime (init None (Some scenario_b) None) = Inr (Some rep, ck')"
    using scenario_b_runs by blast
  from run_all_checks_report_complete [OF r] have "dom rep = report_keys" by simp
  with r show ?thesis by blast
qed


subsection \<open>Missing values\<close>

lemma sum_bool_isnull: "sum_bool (isnull cs) = count_list cs None"
  by (induction cs) (simp_all add: sum_bool_def isnull_def)

lemma count_list_pos: "0 < count_list cs x \<longleftrightarrow> x \<in> set cs"
  by (induction cs) auto

lemma missing_data_names: "map fst (missing_data d) = map name d"
  by (simp add: missing_data_def comp_def)

lemma missing_percentage_names: "map fst (missing_percentage d) = map name d"
  by (simp add: missing_percentage_def missing_data_def comp_def)

lemma columns_with_missing_eq:
  "map fst (filter (\<lambda>kv. 0 < snd kv) (missing_data d))
     = map name (filter (\<lambda>c. None \<in> set (cells c)) d)"
  by (induction d) (simp_all add: missing_data_def sum_bool_isnull count_list_pos)

text \<open>
  Claim C6. On a well-formed frame with at least one row, the missing-value check
  stores, for every column, the number of its null cells and that number divided by the
  row count, times 100; the total is the sum of the columns' counts, and the columns
  with a null cell are listed in column order.
\<close>

theorem check_missing_values_correct:
  assumes "wf_df d" and "0 < len_df d" and "df ck = Some d"
  shows "\<exists>ck' m. check_missing_values ck = Inr ck'
           \<and> quality_report ck' ''missing_values'' = Some (MissingValues m)
           \<and> (\<forall>c \<in> set d.
                 missing_by_column m (name c) = Some (count_list (cells c) None)
                 \<and> missing_percentage_by_column m (name c)
                     = Some (Fin (of_nat (count_list (cells c) None) / of_nat (len_df d) * 100)))
           \<and> total_missing m = sum_list (map (\<lambda>c. count_list (cells c) None) d)
           \<and> columns_with_missing m = map name (filter (\<lambda>c. None \<in> set (cells c)) d)"
proof -
  let ?m = "missing_values_of d"
  from assms(1) have dn: "distinct (map name d)"
    by (simp add: wf_df_def)
  have run: "check_missing_values ck
               = Inr (log_info ''Checked missing values.''
                        (set_section ''missing_values'' (MissingValues ?m) ck))"
    using assms(3) by (simp add: check_missing_values_def need_df_def)
  have per: "missing_by_column ?m (name c) = Some (count_list (cells c) None)
             \<and> missing_percentage_by_column ?m (name c)
                 = Some (Fin (of_nat (count_list (cells c) None) / of_nat (len_df d) * 100))"
    if c: "c \<in> set d" for c
  proof -
    have "(name c, count_list (cells c) None) \<in> set (missing_data d)"
      using c by (auto simp add: missing_data_def sum_bool_isnull)
    then have a: "to_dict (missing_data d) (name c) = Some (count_list (cells c) None)"
      using dn by (intro to_dict_distinct) (simp_all add: missing_data_names)
    have "(name c, Fin (of_nat (count_list (cells c) None) / of_nat (len_df d) * 100))
            \<in> set (missing_percentage d)"
      using c assms(2)
      by (auto simp add: missing_percentage_def missing_data_def sum_bool_isnull np_div_def
          image_iff intro!: bexI [of _ c])
    then have b: "to_dict (missing_percentage d) (name c)
                    = Some (Fin (of_nat (count_list (cells c) None) / of_nat (len_df d) * 100))"
      using dn by (intro to_dict_distinct) (simp_all add: missing_percentage_names)
    from a b show ?thesis
      by (simp add: missing_values_of_def)
  qed
  have tot: "total_missing ?m = sum_list (map (\<lambda>c. count_list (cells c) None) d)"
    by (simp add: missing_values_of_def missing_data_def comp_def sum_bool_isnull)
  have cwm: "columns_with_missing ?m = map name (filter (\<lambda>c. None \<in> set (cells c)) d)"
    by (simp add: missing_values_of_def columns_with_missing_eq)
  from run per tot cwm show ?thesis
    by simp
qed

theorem check_missing_values_correct_witness:
  "\<exists>ck' m. check_missing_values (init None (Some scenario_a) None) = Inr ck'
       \<and> quality_report ck' ''missing_values'' = Some (MissingValues m)
       \<and> missing_by_column m ''age'' = Some 1
       \<and> missing_percentage_by_column m ''age'' = Some (Fin 25)
       \<and> missing_by_column m ''city'' = Some 2
       \<and> total_missing m = 3
       \<and> columns_with_missing m = [''age'', ''city'']"
proof -
  have p: "0 < len_df scenario_a"
    by (simp add: scenario_a_len)
  have q: "df (init None (Some scenario_a) None) = Some scenario_a"
    by simp
  from check_missing_values_correct [OF scenario_a_wf p q] obtain ck' m where
    r: "check_missing_values (init None (Some scenario_a) None) = Inr ck'"
       "quality_report ck' ''missing_values'' = Some (MissingValues m)"
    and per: "\<forall>c \<in> set scenario_a.
                 missing_by_column m (name c) = Some (count_list (cells c) None)
                 \<and> missing_percentage_by_column m (name c)
                     = Some (Fin (of_nat (count_list (cells c) None) / of_nat (len_df scenario_a) * 100))"
    and tot: "total_missing m = sum_list (map (\<lambda>c. count_list (cells c) None) scenario_a)"
    and cwm: "columns_with_missing m = map name (filter (\<lambda>c. None \<in> set (cells c)) scenario_a)"
    by blast
  from per have "missing_by_column m ''age'' = Some 1"
    and "missing_percentage_by_column m ''age'' = Some (Fin 25)"
    and "missing_by_column m ''city'' = Some 2"
    by (simp_all add: scenario_a_len) (simp_all add: scenario_a_def)
  moreover from tot have "total_missing m = 3"
    by (simp add: scenario_a_def)
  moreover from cwm have "columns_with_missing m = [''age'', ''city'']"
    by (simp add: scenario_a_def)
  ultimately show ?thesis
    using r by blast
qed

subsection \<open>Duplicates\<close>

lemma length_duplicated_from [simp]: "length (duplicated_from seen rs) = length rs"
  by (induction rs arbitrary: seen) simp_all

lemma duplicated_from_nth:
  "i < length rs \<Longrightarrow>
     duplicated_from seen rs ! i = (rs ! i \<in> set seen \<union> set (take i rs))"
proof (induction rs arbitrary: seen i)
  case Nil
  then show ?case by simp
next
  case (Cons r rs)
  show ?case
  proof (cases i)
    case 0
    then show ?thesis by simp
  next
    case (Suc k)
    with Cons.prems have "k < length rs" by simp
    from Cons.IH [OF this, of "r # seen"] Suc show ?thesis by auto
  qed
qed

lemma length_rows [simp]: "length (rows d) = len_df d"
  by (simp add: rows_def)

lemma rows_nth: "i < len_df d \<Longrightarrow> rows d ! i = row d i"
  by (simp add: rows_def)

lemma duplicated_nth:
  assumes "i < len_df d"
  shows "duplicated d ! i = (\<exists>j<i. row d j = row d i)"
proof -
  have "duplicated d ! i = (rows d ! i \<in> set (take i (rows d)))"
    using assms by (simp add: duplicated_def duplicated_from_nth)
  also have "\<dots> = (\<exists>j<i. rows d ! j = rows d ! i)"
    using assms by (auto simp add: in_set_conv_nth)
  also have "\<dots> = (\<exists>j<i. row d j = row d i)"
    using assms by (auto simp add: rows_nth)
  finally show ?thesis .
qed

lemma sum_bool_card: "sum_bool bs = card {i. i < length bs \<and> bs ! i}"
  by (simp add: sum_bool_def length_filter_conv_card)

lemma duplicated_count:
  "sum_bool (duplicated d) = card {i. i < len_df d \<and> (\<exists>j<i. row d j = row d i)}"
proof -
  have "length (duplicated d) = len_df d"
    by (simp add: duplicated_def)
  then have "{i. i < length (duplicated d) \<and> duplicated d ! i}
               = {i. i < len_df d \<and> (\<exists>j<i. row d j = row d i)}"
    by (auto simp add: duplicated_nth)
  then show ?thesis
    by (simp add: sum_bool_card)
qed

lemma row_eq_iff: "row d j = row d i \<longleftrightarrow> (\<forall>c \<in> set d. cells c ! j = cells c ! i)"
  by (simp add: row_def)

lemma later_rows_bound:
  assumes "0 < n"
  shows "card {i. i < n \<and> (\<exists>j<i. P j i)} \<le> n - 1"
proof -
  have "{i. i < n \<and> (\<exists>j<i. P j i)} \<subseteq> {1..<n}"
    by auto
  then have "card {i. i < n \<and> (\<exists>j<i. P j i)} \<le> card {1..<n}"
    by (intro card_mono) simp_all
  then show ?thesis by simp
qed

text \<open>
  Claim C7. On a well-formed frame the duplicate-row check counts exactly the rows that
  agree in every column with some earlier row; the first row of the frame is never
  counted, so the count is at most the row count minus one when there is a row.
\<close>

theorem check_duplicates_counts_later_copies:
  assumes "wf_df d" and "df ck = Some d"
  shows "\<exists>ck' r. check_duplicates ck = Inr ck'
           \<and> quality_report ck' ''duplicates'' = Some (Duplicates r)
           \<and> total_duplicate_rows r
               = card {i. i < len_df d \<and> (\<exists>j<i. \<forall>c \<in> set d. cells c ! j = cells c ! i)}
           \<and> (0 < len_df d \<longrightarrow> total_duplicate_rows r \<le> len_df d - 1)"
proof -
  let ?r = "duplicates_of d"
  have run: "check_duplicates ck
               = Inr (log_info ''Checked duplicates.''
                        (set_section ''duplicates'' (Duplicates ?r) ck))"
    using assms(2) by (simp add: check_duplicates_def need_df_def)
  have cnt: "total_duplicate_rows ?r
               = card {i. i < len_df d \<and> (\<exists>j<i. \<forall>c \<in> set d. cells c ! j = cells c ! i)}"
    by (simp add: duplicates_of_def Let_def duplicated_count row_eq_iff)
  have "total_duplicate_rows ?r \<le> len_df d - 1" if "0 < len_df d"
    unfolding cnt using that by (rule later_rows_bound)
  with run cnt show ?thesis
    by simp
qed

lemma scenario_a_duplicates:
  "total_duplicate_rows (duplicates_of scenario_a) = 1"
  by (simp add: duplicates_of_def Let_def duplicated_def rows_def row_def len_df_def
      scenario_a_def sum_bool_def upt_rec)

theorem check_duplicates_counts_later_copies_witness:
  "\<exists>ck' r. check_duplicates (init None (Some scenario_a) None) = Inr ck'
       \<and> quality_report ck' ''duplicates'' = Some (Duplicates r)
       \<and> total_duplicate_rows r = 1
       \<and> total_duplicate_rows r \<le> 4 - 1"
proof -
  have q: "df (init None (Some scenario_a) None) = Some scenario_a"
    by simp
  from check_duplicates_counts_later_copies [OF scenario_a_wf q] obtain ck' r where
    r: "check_duplicates (init None (Some scenario_a) None) = Inr ck'"
       "quality_report ck' ''duplicates'' = Some (Duplicates r)"
    and b: "0 < len_df scenario_a \<longrightarrow> total_duplicate_rows r \<le> len_df scenario_a - 1"
    by (elim exE conjE) (rule that, assumption+)
  from r have "total_duplicate_rows r = 1"
    using scenario_a_duplicates
    by (auto simp add: check_duplicates_def need_df_def)
  moreover from b have "total_duplicate_rows r \<le> 4 - 1"
    by (simp add: scenario_a_len)
  ultimately show ?thesis
    using r by blast
qed

subsection \<open>Cardinality\<close>

lemma set_unique_from: "set (unique_from seen xs) = set xs - set seen"
  by (induction xs arbitrary: seen) auto

lemma distinct_unique_from: "distinct (unique_from seen xs)"
  by (induction xs arbitrary: seen) (auto simp add: set_unique_from)

lemma set_unique [simp]: "set (unique xs) = set xs"
  by (simp add: unique_def set_unique_from)

lemma distinct_unique [simp]: "distinct (unique xs)"
  by (simp add: unique_def distinct_unique_from)

lemma length_unique: "length (unique xs) = card (set xs)"
  using distinct_card [of "unique xs"] by simp

lemma set_dropna: "set (dropna cs) = {v. Some v \<in> set cs}"
  by (induction cs rule: dropna.induct) auto

lemma length_dropna_le: "length (dropna cs) \<le> length cs"
  by (induction cs rule: dropna.induct) simp_all

lemma nunique_card: "nunique cs = card {v. Some v \<in> set cs}"
  by (simp add: nunique_def length_unique set_dropna)

lemma nunique_le: "nunique cs \<le> length cs"
proof -
  have "card (set (dropna cs)) \<le> length (dropna cs)"
    by (rule card_length)
  then show ?thesis
    using length_dropna_le [of cs] by (simp add: nunique_def length_unique)
qed

lemma wf_df_length: "wf_df d \<Longrightarrow> c \<in> set d \<Longrightarrow> length (cells c) = len_df d"
  by (simp add: wf_df_def list_all_iff)

lemma cardinality_loop_total:
  "0 < n \<Longrightarrow> \<exists>m. cardinality_loop n cs acc = Inr m"
  by (induction cs arbitrary: acc) (simp_all add: py_truediv_def Let_def)

lemma cardinality_loop_entries:
  assumes "cardinality_loop n cs acc = Inr m" and "m cn = Some r"
  shows "acc cn = Some r
         \<or> (\<exists>c \<in> set cs. name c = cn
                \<and> unique_values r = nunique (cells c)
                \<and> high_cardinality r = ((of_nat n :: rat) * (1 / 2) < of_nat (nunique (cells c))))"
  using assms
proof (induction cs arbitrary: acc)
  case Nil
  then show ?case by simp
next
  case (Cons c cs)
  from Cons.prems(1) obtain p where p: "py_truediv (nunique (cells c)) n = Inr p"
    and rest: "cardinality_loop n cs
                 (acc(name c \<mapsto>
                    \<lparr>unique_values = nunique (cells c),
                     cardinality_percentage = fmul p (Fin 100),
                     high_cardinality = ((of_nat n :: rat) * (1 / 2) < of_nat (nunique (cells c)))\<rparr>))
               = Inr m"
    by (auto simp add: Let_def split: sum.splits)
  from Cons.IH [OF rest Cons.prems(2)] show ?case
    by (auto split: if_splits)
qed

lemma cardinality_loop_dom:
  "cardinality_loop n cs acc = Inr m \<Longrightarrow> dom m = dom acc \<union> name ` set cs"
proof (induction cs arbitrary: acc)
  case Nil
  then show ?case by simp
next
  case (Cons c cs)
  from Cons.prems obtain v where "cardinality_loop n cs (acc(name c \<mapsto> v)) = Inr m"
    by (auto simp add: Let_def split: sum.splits)
  from Cons.IH [OF this] show ?case
    by auto
qed

text \<open>
  Claim C8. On a well-formed frame the cardinality check does not raise when there is a
  row; whenever it returns, its result has exactly the text (object) columns, and for
  each of them the number of distinct non-null values, which is at most the row count,
  and the flag that this number exceeds half the row count.
\<close>

theorem check_cardinality_correct:
  assumes "wf_df d" and "df ck = Some d"
  shows "(0 < len_df d \<longrightarrow> (\<exists>ck'. check_cardinality ck = Inr ck'))
         \<and> (\<forall>ck'. check_cardinality ck = Inr ck' \<longrightarrow>
               (\<exists>m. quality_report ck' ''cardinality'' = Some (Cardinality m)
                  \<and> dom m = name ` {c \<in> set d. kind c = Object}
                  \<and> (\<forall>cn r. m cn = Some r \<longrightarrow>
                        (\<exists>c \<in> set d. name c = cn \<and> kind c = Object
                            \<and> unique_values r = card {v. Some v \<in> set (cells c)})
                        \<and> unique_values r \<le> len_df d
                        \<and> high_cardinality r
                            = ((5 / 10 :: rat) * of_nat (len_df d) < of_nat (unique_values r)))))"
proof (intro conjI allI impI)
  assume "0 < len_df d"
  then obtain m where "cardinality_of d = Inr m"
    unfolding cardinality_of_def using cardinality_loop_total by blast
  then show "\<exists>ck'. check_cardinality ck = Inr ck'"
    using assms(2) by (simp add: check_cardinality_def need_df_def)
next
  fix ck'
  assume run: "check_cardinality ck = Inr ck'"
  then obtain m where m: "cardinality_of d = Inr m"
    and ck': "ck' = log_info ''Checked cardinality.'' (set_section ''cardinality'' (Cardinality m) ck)"
    using assms(2) by (auto simp add: check_cardinality_def need_df_def split: sum.splits)
  have loop: "cardinality_loop (len_df d) (filter (\<lambda>c. kind c = Object) d) Map.empty = Inr m"
    using m by (simp add: cardinality_of_def)
  have dm: "dom m = name ` {c \<in> set d. kind c = Object}"
    using cardinality_loop_dom [OF loop] by simp
  have ent: "(\<exists>c \<in> set d. name c = cn \<and> kind c = Object
                \<and> unique_values r = card {v. Some v \<in> set (cells c)})
             \<and> unique_values r \<le> len_df d
             \<and> high_cardinality r
                 = ((5 / 10 :: rat) * of_nat (len_df d) < of_nat (unique_values r))"
    if "m cn = Some r" for cn r
  proof -
    from cardinality_loop_entries [OF loop that] obtain c where c: "c \<in> set d" "kind c = Object"
      and n: "name c = cn" and u: "unique_values r = nunique (cells c)"
      and h: "high_cardinality r
                = ((of_nat (len_df d) :: rat) * (1 / 2) < of_nat (nunique (cells c)))"
      by auto
    have "unique_values r \<le> len_df d"
      using nunique_le [of "cells c"] wf_df_length [OF assms(1) c(1)] u by simp
    moreover have "high_cardinality r
                     = ((5 / 10 :: rat) * of_nat (len_df d) < of_nat (unique_values r))"
      using h u by (simp add: mult.commute)
    ultimately show ?thesis
      using c n u by (auto simp add: nunique_card)
  qed
  show "\<exists>m. quality_report ck' ''cardinality'' = Some (Cardinality m)
          \<and> dom m = name ` {c \<in> set d. kind c = Object}
          \<and> (\<forall>cn r. m cn = Some r \<longrightarrow>
                (\<exists>c \<in> set d. name c = cn \<and> kind c = Object
                    \<and> unique_values r = card {v. Some v \<in> set (cells c)})
                \<and> unique_values r \<le> len_df d
                \<and> high_cardinality r
                    = ((5 / 10 :: rat) * of_nat (len_df d) < of_nat (unique_values r)))"
    using ck' dm ent by (intro exI [of _ m]) simp
qed

lemma scenario_a_cardinality:
  "\<exists>m r. cardinality_of scenario_a = Inr m \<and> m ''city'' = Some r \<and> unique_values r = 1"
  by (simp add: cardinality_of_def scenario_a_def len_df_def Let_def py_truediv_def
      nunique_def unique_def)

theorem check_cardinality_correct_witness:
  "\<exists>ck' m r. check_cardinality (init None (Some scenario_a) None) = Inr ck'
       \<and> quality_report ck' ''cardinality'' = Some (Cardinality m)
       \<and> m ''city'' = Some r \<and> unique_values r = 1 \<and> \<not> high_cardinality r
       \<and> unique_values r \<le> 4"
proof -
  have q: "df (init None (Some scenario_a) None) = Some scenario_a"
    by simp
  have pos: "0 < len_df scenario_a"
    by (simp add: scenario_a_len)
  note main = check_cardinality_correct [OF scenario_a_wf q]
  from conjunct1 [OF main] pos
  have "\<exists>ck'. check_cardinality (init None (Some scenario_a) None) = Inr ck'"
    by (rule mp)
  then obtain ck' where run: "check_cardinality (init None (Some scenario_a) None) = Inr ck'"
    by (rule exE)
  from conjunct2 [OF main, rule_format, OF run] obtain m where
    m: "quality_report ck' ''cardinality'' = Some (Cardinality m)"
    and ent: "\<forall>cn r. m cn = Some r \<longrightarrow>
                (\<exists>c \<in> set scenario_a. name c = cn \<and> kind c = Object
                    \<and> unique_values r = card {v. Some v \<in> set (cells c)})
                \<and> unique_values r \<le> len_df scenario_a
                \<and> high_cardinality r
                    = ((5 / 10 :: rat) * of_nat (len_df scenario_a) < of_nat (unique_values r))"
    by (elim exE conjE) (rule that, assumption+)
  from scenario_a_cardinality obtain m0 r where
    c: "cardinality_of scenario_a = Inr m0" and r: "m0 ''city'' = Some r" "unique_values r = 1"
    by (elim exE conjE) (rule that, assumption+)
  have "check_cardinality (init None (Some scenario_a) None)
          = Inr (log_info ''Checked cardinality.''
                   (set_section ''cardinality'' (Cardinality m0) (init None (Some scenario_a) None)))"
    using c by (simp add: check_cardinality_def need_df_def)
  with run have "ck' = log_info ''Checked cardinality.''
                   (set_section ''cardinality'' (Cardinality m0) (init None (Some scenario_a) None))"
    by simp
  with m have "m = m0"
    by simp
  with r have mr: "m ''city'' = Some r"
    by simp
  from ent [rule_format, OF mr] have le: "unique_values r \<le> len_df scenario_a"
    and hc: "high_cardinality r
               = ((5 / 10 :: rat) * of_nat (len_df scenario_a) < of_nat (unique_values r))"
    by simp_all
  from hc r(2) have "\<not> high_cardinality r"
    by (simp add: scenario_a_len)
  moreover from le have "unique_values r \<le> 4"
    by (simp add: scenario_a_len)
  ultimately show ?thesis
    using run m mr r(2) by (intro exI conjI)
qed

subsection \<open>Outliers\<close>

text \<open>Interpolation between neighbours of a sorted list is monotone in the position.\<close>

lemma lerp_at_alt:
  "lerp_at vs h = vs ! lerp_lo vs h + (vs ! lerp_hi vs h - vs ! lerp_lo vs h) * (h - of_int \<lfloor>h\<rfloor>)"
  by (simp add: lerp_at_def lerp_lo_def lerp_hi_def Let_def)

lemma lerp_lo_in_range:
  assumes "0 \<le> h" and "h \<le> of_nat (length vs - 1)"
  shows "lerp_lo vs h = nat \<lfloor>h\<rfloor>"
proof -
  from assms(2) have "\<lfloor>h\<rfloor> \<le> \<lfloor>of_nat (length vs - 1) :: rat\<rfloor>"
    by (rule floor_mono)
  then have "nat \<lfloor>h\<rfloor> \<le> length vs - 1"
    by simp
  then show ?thesis
    by (simp add: lerp_lo_def)
qed

lemma lerp_frac_bounds: "0 \<le> h - of_int \<lfloor>h\<rfloor>" "h - of_int \<lfloor>h\<rfloor> \<le> (1 :: rat)"
  by linarith+

lemma lerp_between:
  assumes "sorted vs" and "vs \<noteq> []"
  shows "vs ! lerp_lo vs h \<le> lerp_at vs h" and "lerp_at vs h \<le> vs ! lerp_hi vs h"
proof -
  let ?a = "vs ! lerp_lo vs h" and ?b = "vs ! lerp_hi vs h" and ?g = "h - of_int \<lfloor>h\<rfloor>"
  from assms(2) have "0 < length vs"
    by simp
  then have "lerp_hi vs h < length vs" and "lerp_lo vs h \<le> lerp_hi vs h"
    unfolding lerp_hi_def lerp_lo_def by linarith+
  with assms(1) have ab: "?a \<le> ?b"
    by (intro sorted_nth_mono)
  then have d: "0 \<le> ?b - ?a"
    by simp
  have g: "0 \<le> ?g" "?g \<le> 1"
    by (rule lerp_frac_bounds)+
  from d g(1) have "0 \<le> (?b - ?a) * ?g"
    by (rule mult_nonneg_nonneg)
  then show "?a \<le> lerp_at vs h"
    by (simp add: lerp_at_alt)
  from d g(2) have "(?b - ?a) * ?g \<le> (?b - ?a) * 1"
    by (intro mult_left_mono)
  then show "lerp_at vs h \<le> ?b"
    by (simp add: lerp_at_alt)
qed

lemma lerp_at_mono:
  assumes s: "sorted vs" and ne: "vs \<noteq> []"
    and h0: "0 \<le> h" and hh: "h \<le> h'" and hn: "h' \<le> of_nat (length vs - 1)"
  shows "lerp_at vs h \<le> lerp_at vs h'"
proof -
  have lo: "lerp_lo vs h = nat \<lfloor>h\<rfloor>"
    using h0 hh hn by (intro lerp_lo_in_range) simp_all
  have lo': "lerp_lo vs h' = nat \<lfloor>h'\<rfloor>"
    using h0 hh hn by (intro lerp_lo_in_range) simp_all
  have fl: "\<lfloor>h\<rfloor> \<le> \<lfloor>h'\<rfloor>"
    using hh by (rule floor_mono)
  have f0: "0 \<le> \<lfloor>h\<rfloor>"
    using h0 by simp
  from ne have "0 < length vs"
    by simp
  then have lo'n: "lerp_lo vs h' < length vs"
    unfolding lerp_lo_def by linarith
  show ?thesis
  proof (cases "\<lfloor>h\<rfloor> = \<lfloor>h'\<rfloor>")
    case True
    then have same: "lerp_lo vs h' = lerp_lo vs h" "lerp_hi vs h' = lerp_hi vs h"
      by (simp_all add: lo lo' lerp_hi_def)
    let ?a = "vs ! lerp_lo vs h" and ?b = "vs ! lerp_hi vs h"
    from ne have "0 < length vs"
      by simp
    then have "lerp_hi vs h < length vs" and "lerp_lo vs h \<le> lerp_hi vs h"
      unfolding lerp_hi_def lerp_lo_def by linarith+
    with s have "?a \<le> ?b"
      by (intro sorted_nth_mono)
    then have d: "0 \<le> ?b - ?a"
      by simp
    have "h - of_int \<lfloor>h\<rfloor> \<le> h' - of_int \<lfloor>h'\<rfloor>"
      using hh True by simp
    with d have "(?b - ?a) * (h - of_int \<lfloor>h\<rfloor>) \<le> (?b - ?a) * (h' - of_int \<lfloor>h'\<rfloor>)"
      by (intro mult_left_mono)
    then show ?thesis
      by (simp add: lerp_at_alt same)
  next
    case False
    with fl f0 have "nat \<lfloor>h\<rfloor> + 1 \<le> nat \<lfloor>h'\<rfloor>"
      by linarith
    then have "lerp_lo vs h + 1 \<le> lerp_lo vs h'"
      by (simp only: lo lo')
    then have "lerp_hi vs h \<le> lerp_lo vs h'"
      by (simp add: lerp_hi_def)
    with s lo'n have "vs ! lerp_hi vs h \<le> vs ! lerp_lo vs h'"
      by (intro sorted_nth_mono)
    moreover have "lerp_at vs h \<le> vs ! lerp_hi vs h"
      using s ne by (rule lerp_between)
    moreover have "vs ! lerp_lo vs h' \<le> lerp_at vs h'"
      using s ne by (rule lerp_between)
    ultimately show ?thesis
      by linarith
  qed
qed

lemma quartiles_ordered:
  assumes "numbers cs \<noteq> []"
  shows "\<exists>q1 q3. quantile cs (1 / 4) = Fin q1 \<and> quantile cs (3 / 4) = Fin q3 \<and> q1 \<le> q3"
proof -
  let ?vs = "sort (numbers cs)"
  let ?n = "of_nat (length ?vs - 1) :: rat"
  from assms have ne: "?vs \<noteq> []"
    by (metis length_sort length_0_conv)
  have "lerp_at ?vs (?n * (1 / 4)) \<le> lerp_at ?vs (?n * (3 / 4))"
  proof (rule lerp_at_mono)
    show "sorted ?vs" by simp
    show "?vs \<noteq> []" by (rule ne)
    show "0 \<le> ?n * (1 / 4)" by simp
    show "?n * (1 / 4) \<le> ?n * (3 / 4)" by simp
    show "?n * (3 / 4) \<le> of_nat (length ?vs - 1)" by simp
  qed
  with ne show ?thesis
    by (simp add: quantile_def Let_def)
qed

lemma scenario_b_quartiles:
  "quantile scenario_b_values (1 / 4) = Fin (9 / 4)"
  "quantile scenario_b_values (3 / 4) = Fin (19 / 4)"
  by code_simp+

lemma dropna_empty_iff: "dropna cs = [] \<longleftrightarrow> set cs \<subseteq> {None}"
  by (induction cs rule: dropna.induct) auto

lemma numbers_empty_iff:
  "list_all (\<lambda>x. \<not> is_text_val x) cs \<Longrightarrow> numbers cs = [] \<longleftrightarrow> dropna cs = []"
  by (induction cs rule: numbers.induct) simp_all

lemma wf_df_numbers:
  assumes "wf_df d" and "c \<in> set d" and "is_number (kind c)"
  shows "numbers (cells c) = [] \<longleftrightarrow> set (cells c) \<subseteq> {None}"
proof -
  from assms have "list_all (\<lambda>x. \<not> is_text_val x) (cells c)"
    by (simp add: wf_df_def list_all_iff)
  then show ?thesis
    by (simp add: numbers_empty_iff dropna_empty_iff)
qed

lemma wf_df_name_inj:
  assumes "wf_df d" and "c \<in> set d" and "c' \<in> set d" and "name c = name c'"
  shows "c = c'"
proof -
  from assms(1) have "inj_on name (set d)"
    by (simp add: wf_df_def distinct_map)
  with assms(2-4) show ?thesis
    by (auto dest: inj_onD)
qed

lemma outliers_loop_to_dict:
  "outliers_loop n cs acc
     = acc ++ to_dict (map (\<lambda>c. (name c, outlier_of n (cells c)))
                          (filter (\<lambda>c. dropna (cells c) \<noteq> []) cs))"
  by (induction cs arbitrary: acc) (simp_all add: to_dict_map_of_rev)

lemma dom_to_dict: "dom (to_dict kvs) = fst ` set kvs"
  by (simp add: to_dict_map_of_rev dom_map_of_conv_image_fst)

lemma outlier_of_bounds:
  assumes "numbers cs \<noteq> []"
  shows "\<exists>q1 q3. quantile cs (1 / 4) = Fin q1 \<and> quantile cs (3 / 4) = Fin q3
           \<and> lower_bound (outlier_of n cs) = Fin (q1 - 3 / 2 * (q3 - q1))
           \<and> upper_bound (outlier_of n cs) = Fin (q3 + 3 / 2 * (q3 - q1))
           \<and> q1 \<le> q3"
proof -
  from quartiles_ordered [OF assms] obtain q1 q3 where
    q: "quantile cs (1 / 4) = Fin q1" "quantile cs (3 / 4) = Fin q3" and le: "q1 \<le> q3"
    by blast
  have "lower_bound (outlier_of n cs) = Fin (q1 - 3 / 2 * (q3 - q1))"
    and "upper_bound (outlier_of n cs) = Fin (q3 + 3 / 2 * (q3 - q1))"
    by (simp_all add: outlier_of_def Let_def q fsub_def)
  with q le show ?thesis
    by blast
qed


lemma all_null_frame_wf: "wf_df all_null_frame"
  by (simp add: wf_df_def all_null_frame_def len_df_def is_number_def scenario_b_values_def)


lemma scenario_b_record:
  "outlier_of 6 scenario_b_values
     = \<lparr>outlier_count = 1, outlier_percentage = Fin (50 / 3),
        lower_bound = Fin (- 3 / 2), upper_bound = Fin (17 / 2)\<rparr>"
  by (simp add: outlier_of_def Let_def scenario_b_quartiles fsub_def)
     (simp add: scenario_b_values_def sum_bool_def np_div_def)

lemma scenario_b_len: "len_df scenario_b = 6"
  by (simp add: len_df_def scenario_b_def scenario_b_values_def)

lemma scenario_b_values_dropna: "dropna scenario_b_values \<noteq> []"
  by (simp add: scenario_b_values_def)

lemma scenario_b_column_record:
  "outliers_of scenario_b ''x'' = Some (outlier_of 6 scenario_b_values)"
  unfolding outliers_of_def scenario_b_len
  by (simp add: scenario_b_def is_number_def scenario_b_values_dropna)

text \<open>
  Claim C2. The frame of six rows whose numeric column holds 1, 2, 3, 4, 5, 100: with
  linear interpolation \<open>Q1 = 2.25\<close>, \<open>Q3 = 4.75\<close> and \<open>IQR = 2.5\<close>; the outlier
  check reports the bounds \<open>-1.5\<close> and \<open>8.5\<close> and one outlier (the value 100, one
  sixth of the rows).
\<close>

theorem scenario_b_outliers:
  "len_df scenario_b = 6
   \<and> quantile scenario_b_values (1 / 4) = Fin (9 / 4)
   \<and> quantile scenario_b_values (3 / 4) = Fin (19 / 4)
   \<and> fsub (quantile scenario_b_values (3 / 4)) (quantile scenario_b_values (1 / 4)) = Fin (5 / 2)
   \<and> (\<exists>ck' m. check_numeric_outliers (init None (Some scenario_b) None) = Inr ck'
         \<and> quality_report ck' ''outliers'' = Some (Outliers m)
         \<and> m ''x'' = Some \<lparr>outlier_count = 1, outlier_percentage = Fin (50 / 3),
                            lower_bound = Fin (- 3 / 2), upper_bound = Fin (17 / 2)\<rparr>)"
proof -
  note scenario_b_len
  moreover have "fsub (quantile scenario_b_values (3 / 4)) (quantile scenario_b_values (1 / 4))
                   = Fin (5 / 2)"
    by (simp add: scenario_b_quartiles fsub_def)
  moreover have "check_numeric_outliers (init None (Some scenario_b) None)
          = Inr (log_info ''Checked numeric outliers.''
                   (set_section ''outliers'' (Outliers (outliers_of scenario_b))
                      (init None (Some scenario_b) None)))"
    by (simp add: check_numeric_outliers_def need_df_def)
  moreover have "outliers_of scenario_b ''x''
                   = Some \<lparr>outlier_count = 1, outlier_percentage = Fin (50 / 3),
                           lower_bound = Fin (- 3 / 2), upper_bound = Fin (17 / 2)\<rparr>"
    by (simp only: scenario_b_column_record scenario_b_record)
  ultimately show ?thesis
    using scenario_b_quartiles by simp
qed

subsection \<open>Column samples\<close>

lemma remdups_snoc:
  "remdups (ys @ [x]) = remdups (filter (\<lambda>y. y \<noteq> x) ys) @ [x]"
  by (induction ys) auto

lemma unique_from_remdups:
  "unique_from seen xs = rev (remdups (rev (filter (\<lambda>x. x \<notin> set seen) xs)))"
proof (induction xs arbitrary: seen)
  case Nil
  then show ?case by simp
next
  case (Cons x xs)
  show ?case
  proof (cases "x \<in> set seen")
    case True
    then show ?thesis
      by (simp add: Cons.IH)
  next
    case False
    have "filter (\<lambda>y. y \<notin> set (x # seen)) xs = filter (\<lambda>y. y \<noteq> x) (filter (\<lambda>y. y \<notin> set seen) xs)"
      by (induction xs) auto
    then have "unique_from (x # seen) xs
                 = rev (remdups (filter (\<lambda>y. y \<noteq> x) (rev (filter (\<lambda>y. y \<notin> set seen) xs))))"
      by (simp add: Cons.IH rev_filter)
    moreover have "remdups (rev (filter (\<lambda>y. y \<notin> set seen) xs) @ [x])
                     = remdups (filter (\<lambda>y. y \<noteq> x) (rev (filter (\<lambda>y. y \<notin> set seen) xs))) @ [x]"
      by (rule remdups_snoc)
    ultimately show ?thesis
      using False by simp
  qed
qed

lemma unique_first_occurrences: "unique xs = first_occurrences xs"
  by (simp add: unique_def first_occurrences_def unique_from_remdups)

lemma not_digit_dot: "\<not> is_digit_char (CHR ''.'')"
  by (simp add: is_digit_char_def)

lemma all_digits_no_dot:
  "list_all is_digit_char s
     \<longleftrightarrow> list_all (\<lambda>c. is_digit_char c \<or> c = CHR ''.'') s \<and> count_list s (CHR ''.'') = 0"
  by (induction s) (auto simp add: not_digit_dot)

lemma all_digits_remove_dot:
  "list_all is_digit_char (remove1 (CHR ''.'') s)
     \<longleftrightarrow> list_all (\<lambda>c. is_digit_char c \<or> c = CHR ''.'') s \<and> count_list s (CHR ''.'') \<le> 1"
proof (induction s)
  case Nil
  then show ?case by simp
next
  case (Cons c s)
  show ?case
  proof (cases "c = CHR ''.''")
    case True
    then show ?thesis
      using all_digits_no_dot [of s] by simp
  next
    case False
    then show ?thesis
      using Cons.IH by auto
  qed
qed

lemma digit_survives:
  "list_ex is_digit_char (remove1 (CHR ''.'') s) \<longleftrightarrow> list_ex is_digit_char s"
proof -
  have "c \<in> set (remove1 (CHR ''.'') s) \<longleftrightarrow> c \<in> set s" if "is_digit_char c" for c
    using that not_digit_dot by (intro in_set_remove1) auto
  then show ?thesis
    by (auto simp add: list_ex_iff dest: notin_set_remove1)
qed

lemma numeric_like_literal: "numeric_like s = numeric_literal s"
proof -
  let ?t = "remove1 (CHR ''.'') s"
  have "?t \<noteq> [] \<and> list_all is_digit_char ?t
          \<longleftrightarrow> list_all is_digit_char ?t \<and> list_ex is_digit_char ?t"
    by (cases ?t) (auto simp add: list_ex_iff list_all_iff)
  then show ?thesis
    by (simp add: numeric_like_def numeric_literal_def isdigit_def replace_first_dot_def
        all_digits_remove_dot digit_survives)
qed

lemma sum_bool_map: "sum_bool (map P xs) = length (filter P xs)"
  by (induction xs) (simp_all add: sum_bool_def)

lemma unique_empty_iff: "unique xs = [] \<longleftrightarrow> xs = []"
  using set_unique [of xs] by (metis set_empty)

lemma dtype_str_object: "dtype_str k = ''object'' \<longleftrightarrow> k = Object"
  by (cases k) simp_all

lemma numeric_note_nonempty: "numeric_note \<noteq> []"
  by (simp add: numeric_note_def)

lemma sample_of_values:
  "sample_values (sample_of rt 3 c)
     = (if set (cells c) \<subseteq> {None} then [''<no non-null values>'']
        else take 3 (first_occurrences (map (astype_str rt (kind c)) (dropna (cells c)))))"
proof -
  let ?strs = "map (astype_str rt (kind c)) (dropna (cells c))"
  have "take 3 (unique ?strs) = [] \<longleftrightarrow> set (cells c) \<subseteq> {None}"
    by (simp add: unique_empty_iff dropna_empty_iff)
  then show ?thesis
    by (simp add: sample_of_def Let_def slice_to_def unique_first_occurrences [symmetric])
qed

lemma sample_of_nonempty: "sample_values (sample_of rt k c) \<noteq> []"
  by (simp add: sample_of_def Let_def)

lemma sample_of_notes:
  "sample_notes (sample_of rt k c)
     = (if kind c = Object
           \<and> (6 / 10 :: rat) * of_nat (length (sample_values (sample_of rt k c)))
               < of_nat (length (filter numeric_literal (sample_values (sample_of rt k c))))
        then numeric_note else [])"
proof -
  let ?s = "sample_values (sample_of rt k c)"
  let ?k = "length (filter numeric_literal ?s)"
  have raw: "sample_notes (sample_of rt k c)
               = (if dtype_str (kind c) = ''object''
                  then (if 0 < length ?s
                           \<and> (6 / 10 :: rat) < of_nat (sum_bool (map numeric_like ?s)) / of_nat (length ?s)
                        then numeric_note else [])
                  else [])"
    by (simp add: sample_of_def Let_def)
  have "numeric_like = numeric_literal"
    by (rule ext) (rule numeric_like_literal)
  then have cnt: "sum_bool (map numeric_like ?s) = ?k"
    by (simp only: sum_bool_map)
  have n: "0 < length ?s"
    using sample_of_nonempty [of rt k c] by simp
  then have "(0 :: rat) < of_nat (length ?s)"
    by simp
  from pos_less_divide_eq [OF this] n
  have eqv: "(0 < length ?s \<and> (6 / 10 :: rat) < of_nat ?k / of_nat (length ?s))
               \<longleftrightarrow> (6 / 10 :: rat) * of_nat (length ?s) < of_nat ?k"
    by simp
  show ?thesis
    unfolding raw cnt dtype_str_object eqv
    by (cases "kind c = Object") (simp_all only: if_True if_False simp_thms)
qed

lemma sample_length_bound:
  "length (take 3 (first_occurrences (map f (dropna cs)))) \<le> min 3 (card {v. Some v \<in> set cs})"
proof -
  have "length (first_occurrences (map f (dropna cs))) = card (f ` set (dropna cs))"
    by (simp add: unique_first_occurrences [symmetric] length_unique)
  also have "\<dots> \<le> card (set (dropna cs))"
    by (rule card_image_le) simp
  finally show ?thesis
    by (simp add: set_dropna)
qed


lemma scenario_c_wf: "wf_df scenario_c"
  by (simp add: wf_df_def scenario_c_def len_df_def is_number_def)

lemma scenario_c_literals:
  "numeric_literal ''1''" "numeric_literal ''2''" "\<not> numeric_literal ''x''"
  "\<not> numeric_literal ''y''" "\<not> numeric_literal ''<no non-null values>''"
  by (simp_all add: numeric_literal_def is_digit_char_def)


subsection \<open>Frames without rows\<close>

lemma header_only_checker [simp]: "df (init None (Some header_only) None) = Some header_only"
  by simp

lemma header_only_len: "len_df header_only = 0"
  by (simp add: header_only_def len_df_def)

lemma header_only_wf: "wf_df header_only"
  by (simp add: wf_df_def header_only_def len_df_def is_number_def)

lemma header_only_cardinality:
  "cardinality_of header_only = Inl (ZeroDivisionError ''division by zero'')"
  by (simp add: cardinality_of_def header_only_def len_df_def py_truediv_def Let_def)

lemma header_only_run_checks:
  assumes "df ck = Some header_only"
  shows "run_checks rt ck = Inl (ZeroDivisionError ''division by zero'')"
  using assms
  by (simp add: run_checks_def then_check_def check_missing_values_def check_data_types_def
      check_duplicates_def check_numeric_outliers_def check_cardinality_def need_df_def
      header_only_cardinality)

lemma header_only_load:
  "\<exists>ck1. load_data rt (init None (Some header_only) None) = (True, ck1)
         \<and> df ck1 = Some header_only"
  by (simp add: load_data_def)

text \<open>
  Claim C5 says that on a frame without rows the percentages of the missing-value, the
  duplicate and the cardinality check are computed without an exception and without
  not-a-number. On the header-only frame the first two are not-a-number, and the
  cardinality check raises ZeroDivisionError, which ends \<^verbatim>\<open>run_all_checks\<close>.
\<close>

theorem zero_rows_counterexample:
  "check_missing_values (init None (Some header_only) None)
     = Inr (log_info ''Checked missing values.''
              (set_section ''missing_values'' (MissingValues (missing_values_of header_only))
                 (init None (Some header_only) None)))
   \<and> missing_percentage_by_column (missing_values_of header_only) ''id'' = Some NaN
   \<and> check_duplicates (init None (Some header_only) None)
     = Inr (log_info ''Checked duplicates.''
              (set_section ''duplicates'' (Duplicates (duplicates_of header_only))
                 (init None (Some header_only) None)))
   \<and> duplicate_percentage (duplicates_of header_only) = NaN
   \<and> check_cardinality (init None (Some header_only) None)
     = Inl (ZeroDivisionError ''division by zero'')
   \<and> run_all_checks plain_runtime (init None (Some header_only) None)
     = Inl (ZeroDivisionError ''division by zero'')"
proof -
  have "missing_percentage_by_column (missing_values_of header_only) ''id'' = Some NaN"
    by (simp add: missing_values_of_def missing_percentage_def missing_data_def to_dict_def
        header_only_def len_df_def np_div_def sum_bool_def isnull_def)
  moreover have "duplicate_percentage (duplicates_of header_only) = NaN"
    by (simp add: duplicates_of_def Let_def duplicated_def rows_def header_only_len
        sum_bool_def np_div_def)
  moreover have "check_cardinality (init None (Some header_only) None)
                   = Inl (ZeroDivisionError ''division by zero'')"
    by (simp add: check_cardinality_def need_df_def header_only_cardinality)
  moreover have "run_all_checks plain_runtime (init None (Some header_only) None)
                   = Inl (ZeroDivisionError ''division by zero'')"
    using header_only_load [of plain_runtime]
    by (auto simp add: run_all_checks_def header_only_run_checks)
  ultimately show ?thesis
    by (simp add: check_missing_values_def check_duplicates_def need_df_def)
qed

lemma zero_rows_cells:
  assumes "wf_df d" and "len_df d = 0" and "c \<in> set d"
  shows "cells c = []"
  using wf_df_length [OF assms(1,3)] assms(2) by simp

text \<open>
  Claim C5, as the code has it: on a well-formed frame without rows the missing-value
  check and the duplicate check do not raise; every column's missing count is 0 and its
  missing percentage is not-a-number, the duplicate count is 0 and the duplicate
  percentage is not-a-number. No fallback value is put in their place.
\<close>

theorem zero_rows_percentages:
  assumes "wf_df d" and "len_df d = 0" and "df ck = Some d"
  shows "(\<exists>ck' m. check_missing_values ck = Inr ck'
            \<and> quality_report ck' ''missing_values'' = Some (MissingValues m)
            \<and> (\<forall>c \<in> set d. missing_by_column m (name c) = Some 0
                  \<and> missing_percentage_by_column m (name c) = Some NaN))
         \<and> (\<exists>ck' r. check_duplicates ck = Inr ck'
               \<and> quality_report ck' ''duplicates'' = Some (Duplicates r)
               \<and> total_duplicate_rows r = 0 \<and> duplicate_percentage r = NaN)"
proof (rule conjI)
  let ?m = "missing_values_of d"
  from assms(1) have dn: "distinct (map name d)"
    by (simp add: wf_df_def)
  have run: "check_missing_values ck
               = Inr (log_info ''Checked missing values.''
                        (set_section ''missing_values'' (MissingValues ?m) ck))"
    using assms(3) by (simp add: check_missing_values_def need_df_def)
  have per: "missing_by_column ?m (name c) = Some 0
             \<and> missing_percentage_by_column ?m (name c) = Some NaN" if c: "c \<in> set d" for c
  proof -
    have e: "cells c = []"
      using assms(1,2) c by (rule zero_rows_cells)
    have "(name c, 0) \<in> set (missing_data d)"
      using c e by (auto simp add: missing_data_def sum_bool_def isnull_def image_iff
          intro!: bexI [of _ c])
    then have a: "to_dict (missing_data d) (name c) = Some 0"
      using dn by (intro to_dict_distinct) (simp_all add: missing_data_names)
    have "(name c, NaN) \<in> set (missing_percentage d)"
      using c e assms(2)
      by (auto simp add: missing_percentage_def missing_data_def sum_bool_def isnull_def
          np_div_def image_iff intro!: bexI [of _ c])
    then have b: "to_dict (missing_percentage d) (name c) = Some NaN"
      using dn by (intro to_dict_distinct) (simp_all add: missing_percentage_names)
    from a b show ?thesis
      by (simp add: missing_values_of_def)
  qed
  from run per show "\<exists>ck' m. check_missing_values ck = Inr ck'
            \<and> quality_report ck' ''missing_values'' = Some (MissingValues m)
            \<and> (\<forall>c \<in> set d. missing_by_column m (name c) = Some 0
                  \<and> missing_percentage_by_column m (name c) = Some NaN)"
    by simp
next
  let ?r = "duplicates_of d"
  have run: "check_duplicates ck
               = Inr (log_info ''Checked duplicates.''
                        (set_section ''duplicates'' (Duplicates ?r) ck))"
    using assms(3) by (simp add: check_duplicates_def need_df_def)
  have "duplicated d = []"
    by (simp add: duplicated_def rows_def assms(2))
  then have "total_duplicate_rows ?r = 0" and "duplicate_percentage ?r = NaN"
    by (simp_all add: duplicates_of_def Let_def sum_bool_def np_div_def assms(2))
  with run show "\<exists>ck' r. check_duplicates ck = Inr ck'
               \<and> quality_report ck' ''duplicates'' = Some (Duplicates r)
               \<and> total_duplicate_rows r = 0 \<and> duplicate_percentage r = NaN"
    by simp
qed

theorem zero_rows_percentages_witness:
  "(\<exists>ck' m. check_missing_values (init None (Some header_only) None) = Inr ck'
       \<and> quality_report ck' ''missing_values'' = Some (MissingValues m)
       \<and> missing_by_column m ''id'' = Some 0
       \<and> missing_percentage_by_column m ''id'' = Some NaN
       \<and> missing_by_column m ''amount'' = Some 0
       \<and> missing_percentage_by_column m ''amount'' = Some NaN)
   \<and> (\<exists>ck' r. check_duplicates (init None (Some header_only) None) = Inr ck'
         \<and> quality_report ck' ''duplicates'' = Some (Duplicates r)
         \<and> total_duplicate_rows r = 0 \<and> duplicate_percentage r = NaN)"
  using zero_rows_percentages [OF header_only_wf header_only_len header_only_checker]
  by (simp add: header_only_def)

end
